theory Spec2Isabelle
  imports Complex_Main "HOL-Library.AList"
begin

section \<open>Detection normalizer\<close>

text \<open>
  \<^verbatim>\<open>normalize_class_name\<close> (video_controller_finale.py, lines 43-71). A label is a
  Python \<^verbatim>\<open>str\<close> or \<^verbatim>\<open>None\<close>; it is modelled as \<open>string option\<close>. \<^verbatim>\<open>str.lower\<close> is
  modelled on the ASCII letters, which is all the membership tests below can tell apart.
\<close>

definition lower_char :: "char \<Rightarrow> char" where
  "lower_char c =
     (if (65::nat) \<le> of_char c \<and> of_char c \<le> (90::nat)
      then char_of (of_char c + (32::nat)) else c)"

definition lower :: "string \<Rightarrow> string" where
  "lower s = map lower_char s"

definition normalize_class_name :: "string option \<Rightarrow> string" where
  "normalize_class_name class_name =
     (case class_name of
        None \<Rightarrow> ''''
      | Some name \<Rightarrow>
          if name = '''' then ''''
          else let name_lower = lower name in
            if name_lower \<in> set [''traffic light'', ''trafficlight'', ''traffic_light'', ''tl'', ''signal'']
              then ''traffic light''
            else if name_lower \<in> set [''car'', ''auto'', ''automobile''] then ''car''
            else if name_lower \<in> set [''truck''] then ''truck''
            else if name_lower \<in> set [''bus''] then ''bus''
            else if name_lower \<in> set [''motorcycle'', ''scooter'', ''motorbike'', ''bike'']
              then ''motorcycle''
            else if name_lower \<in> set [''person'', ''pedestrian'', ''human''] then ''person''
            else name)"

definition is_traffic_light :: "string option \<Rightarrow> bool" where
  "is_traffic_light class_name =
     (case class_name of
        None \<Rightarrow> False
      | Some name \<Rightarrow>
          if name = '''' then False
          else normalize_class_name class_name = ''traffic light'')"

section \<open>Data model of the controller\<close>

text \<open>
  The state that \<^verbatim>\<open>VideoController._run\<close> keeps between frames (first revision in
  video_controller_finale.py, lines 80-1481): the attributes \<^verbatim>\<open>latest_traffic_light\<close>,
  \<^verbatim>\<open>vehicle_history\<close> and \<^verbatim>\<open>vehicle_statuses\<close>. Pixel coordinates and confidences are
  Python floats and are modelled as reals; no claim below depends on rounding. Track IDs are
  Python ints. The two dicts are association lists in insertion order: \<open>map_of\<close> reads a
  key, \<open>AList.update\<close> stores one, \<open>AList.delete\<close> removes one.
  A colour result is a dict that the code reads with \<^verbatim>\<open>.get('color', 'unknown')\<close> and
  \<^verbatim>\<open>.get('confidence', 0.0)\<close>; the record \<open>light_info\<close> holds the two values so read.
  A track of the tracker is a dict with an \<^verbatim>\<open>id\<close> and, possibly, a \<^verbatim>\<open>bbox\<close> of four numbers.
\<close>

type_synonym bbox = "real \<times> real \<times> real \<times> real"

record light_info =
  color :: string
  confidence :: real

record vehicle_status =
  recent_movement :: "bool list"
  violation_history :: "bool list"
  crossed_during_red :: bool
  last_position :: "real option"
  suspicious_jumps :: int

record controller =
  latest_traffic_light :: light_info
  vehicle_history :: "(int \<times> real list) list"
  vehicle_statuses :: "(int \<times> vehicle_status) list"

text \<open>The settings of \<^verbatim>\<open>__init__\<close> (lines 120-131).\<close>

definition movement_threshold :: real where
  "movement_threshold = 1.5"

definition position_history_size :: nat where
  "position_history_size = 20"

definition crossing_check_window :: nat where
  "crossing_check_window = 8"

definition max_position_jump :: real where
  "max_position_jump = 50"

definition init_controller :: controller where
  "init_controller =
     \<lparr>latest_traffic_light = \<lparr>color = ''unknown'', confidence = 0\<rparr>,
      vehicle_history = [],
      vehicle_statuses = []\<rparr>"

text \<open>What one frame brings in. The detector, the ByteTrack tracker, the crosswalk locator
  and the colour classifier are outside the repository's code under study; their results for
  the frame are inputs:
  \<^item> \<open>detections\<close>: the list after \<^verbatim>\<open>model_manager.update_tracking\<close>;
  \<^item> \<open>tracker_tracks\<close>: the value of \<^verbatim>\<open>tracks\<close> at line 780, before the bbox filter: the
    tracker's output on the filtered vehicle detections, \<open>[]\<close> when no detection passes the
    filter (the tracker is not called), \<open>None\<close> when the block raises;
  \<^item> \<open>crosswalk_line\<close>: the \<^verbatim>\<open>violation_line_y\<close> that
    \<^verbatim>\<open>detect_crosswalk_and_violation_line\<close> returns, \<open>None\<close> when it returns none or raises;
  \<^item> \<open>classify_light\<close>: the result of \<^verbatim>\<open>detect_traffic_light_color\<close> (with its
    \<^verbatim>\<open>ensure_traffic_light_color\<close> fallback) on a detection, \<open>None\<close> when it raises.\<close>

record detection =
  class_name :: "string option"
  det_bbox :: "bbox option"
  class_id :: int
  traffic_light_color :: "light_info option"

record track =
  track_id :: int
  track_bbox :: "bbox option"

record frame_input =
  detections :: "detection list"
  tracker_tracks :: "track list option"
  crosswalk_line :: "real option"
  classify_light :: "detection \<Rightarrow> light_info option"

record tracked_vehicle =
  tv_id :: int
  tv_bbox :: bbox
  center_y :: real
  is_moving :: bool
  is_violation :: bool

record crossing_details =
  frames_ago :: nat
  prev_y :: real
  curr_y :: real
  window_checked :: nat

datatype movement = Crossing crossing_details | Fallback real real

record violation =
  v_track_id :: int
  v_bbox :: "int \<times> int \<times> int \<times> int"
  v_line_position :: real
  v_movement :: movement
  v_crossing_window :: nat
  v_position_history :: "real list"

datatype error = KeyError

section \<open>Vehicle track state machine\<close>

text \<open>\<^verbatim>\<open>deque(maxlen=n).append(x)\<close>: the oldest entries leave on the left.\<close>

definition deque_append :: "nat \<Rightarrow> 'a list \<Rightarrow> 'a \<Rightarrow> 'a list" where
  "deque_append maxlen xs x = (let ys = xs @ [x] in drop (length ys - maxlen) ys)"

text \<open>Python's \<^verbatim>\<open>xs[-k]\<close>, read only where \<open>1 \<le> k \<le> length xs\<close>.\<close>

definition from_end :: "'a list \<Rightarrow> nat \<Rightarrow> 'a" where
  "from_end xs k = xs ! (length xs - k)"

definition new_status :: vehicle_status where
  "new_status =
     \<lparr>recent_movement = [], violation_history = [], crossed_during_red = False,
      last_position = None, suspicious_jumps = 0\<rparr>"

text \<open>Lines 824-837: the jump check of one track in one frame.\<close>

definition jump_check :: "real \<Rightarrow> vehicle_status \<Rightarrow> vehicle_status" where
  "jump_check cy st =
     (case last_position st of
        None \<Rightarrow> st
      | Some last_y \<Rightarrow>
          if \<bar>cy - last_y\<bar> > max_position_jump then
            (let st1 = st\<lparr>suspicious_jumps := suspicious_jumps st + 1\<rparr> in
             if suspicious_jumps st1 > 2
             then st1\<lparr>crossed_during_red := False, suspicious_jumps := 0\<rparr>
             else st1)
          else st)"

text \<open>Lines 843-861: movement over the last 3 and the last 5 positions.\<close>

definition movement_detected :: "real list \<Rightarrow> bool" where
  "movement_detected h =
     (length h \<ge> 3 \<and>
      (\<bar>from_end h 1 - from_end h 3\<bar> > movement_threshold \<or>
       (length h \<ge> 5 \<and> \<bar>from_end h 1 - from_end h 5\<bar> > movement_threshold * 1.5)))"

text \<open>Lines 864-872: smoothing over the last four movement samples.\<close>

definition push_movement :: "bool \<Rightarrow> bool list \<Rightarrow> bool list" where
  "push_movement m rm = (let rm1 = rm @ [m] in if length rm1 > 4 then tl rm1 else rm1)"

definition moving_of :: "bool list \<Rightarrow> bool" where
  "moving_of rm =
     (length rm \<ge> 2 \<and> real (length (filter id rm)) \<ge> real (length rm) * 0.5)"

text \<open>Lines 768-779: tracks without a bbox are dropped before the loop.\<close>

fun valid_tracks :: "track list \<Rightarrow> (int \<times> bbox) list" where
  "valid_tracks [] = []"
| "valid_tracks (t # ts) =
     (case track_bbox t of
        None \<Rightarrow> valid_tracks ts
      | Some b \<Rightarrow> (track_id t, b) # valid_tracks ts)"

text \<open>Lines 792-885: the body of the loop over the tracks of the frame. The position
  recorded is the vertical centre of the box. A track seen for the first time gets an empty
  history and a fresh status (lines 809-821).\<close>

definition history_of :: "controller \<Rightarrow> int \<Rightarrow> real list" where
  "history_of s tid = (case map_of (vehicle_history s) tid of None \<Rightarrow> [] | Some h \<Rightarrow> h)"

definition status_of :: "controller \<Rightarrow> int \<Rightarrow> vehicle_status" where
  "status_of s tid =
     (case map_of (vehicle_statuses s) tid of None \<Rightarrow> new_status | Some st \<Rightarrow> st)"

definition update_status :: "real \<Rightarrow> real list \<Rightarrow> vehicle_status \<Rightarrow> vehicle_status" where
  "update_status cy hist1 st0 =
     (let st1 = jump_check cy st0;
          st2 = st1\<lparr>last_position := Some cy\<rparr>
      in st2\<lparr>recent_movement :=
               push_movement (movement_detected hist1) (recent_movement st2)\<rparr>)"

definition update_track :: "int \<times> bbox \<Rightarrow> controller \<Rightarrow> controller \<times> tracked_vehicle" where
  "update_track tb s =
     (case tb of (tid, (x1, y1, x2, y2)) \<Rightarrow>
        let cy = (y1 + y2) / 2;
            hist1 = deque_append position_history_size (history_of s tid) cy;
            st3 = update_status cy hist1 (status_of s tid)
        in (s\<lparr>vehicle_history := AList.update tid hist1 (vehicle_history s),
              vehicle_statuses := AList.update tid st3 (vehicle_statuses s)\<rparr>,
            \<lparr>tv_id = tid, tv_bbox = (x1, y1, x2, y2), center_y = cy,
             is_moving = moving_of (recent_movement st3), is_violation = False\<rparr>))"

fun update_tracks ::
  "(int \<times> bbox) list \<Rightarrow> controller \<Rightarrow> controller \<times> tracked_vehicle list" where
  "update_tracks [] s = (s, [])"
| "update_tracks (t # ts) s =
     (case update_track t s of (s1, tv) \<Rightarrow>
        case update_tracks ts s1 of (s2, tvs) \<Rightarrow> (s2, tv # tvs))"

text \<open>\<^verbatim>\<open>_cleanup_old_vehicle_data\<close> (lines 1450-1469).\<close>

definition delete_vehicle :: "int \<Rightarrow> controller \<Rightarrow> controller" where
  "delete_vehicle old_id s =
     s\<lparr>vehicle_history := AList.delete old_id (vehicle_history s),
       vehicle_statuses := AList.delete old_id (vehicle_statuses s)\<rparr>"

definition cleanup_old_vehicle_data :: "int list \<Rightarrow> controller \<Rightarrow> controller" where
  "cleanup_old_vehicle_data current_track_ids s =
     (let old_ids = filter (\<lambda>k. k \<notin> set current_track_ids) (map fst (vehicle_history s))
      in fold delete_vehicle old_ids s)"

text \<open>Lines 731-907: the tracking block of a frame. When it raises, the except clause leaves
  \<^verbatim>\<open>tracked_vehicles\<close> empty and the clean-up is not reached.\<close>

definition track_phase :: "frame_input \<Rightarrow> controller \<Rightarrow> controller \<times> tracked_vehicle list" where
  "track_phase f s =
     (case tracker_tracks f of
        None \<Rightarrow> (s, [])
      | Some ts \<Rightarrow>
          case update_tracks (valid_tracks ts) s of (s1, tvs) \<Rightarrow>
            (cleanup_old_vehicle_data (map tv_id tvs) s1, tvs))"

section \<open>Violation evaluator\<close>

text \<open>Lines 925-947: the scan over the crossing window, \<^verbatim>\<open>for i in range(1, window_size)\<close>
  with \<^verbatim>\<open>break\<close> at the first pair that crosses.\<close>

fun scan_pairs :: "real \<Rightarrow> real list \<Rightarrow> nat \<Rightarrow> nat list \<Rightarrow> crossing_details option" where
  "scan_pairs line h w [] = None"
| "scan_pairs line h w (i # is) =
     (let p = from_end h (i + 1); c = from_end h i in
      if p < line \<and> c \<ge> line
      then Some \<lparr>frames_ago = i, prev_y = p, curr_y = c, window_checked = w\<rparr>
      else scan_pairs line h w is)"

definition crossing_scan :: "nat \<Rightarrow> real \<Rightarrow> real list \<Rightarrow> crossing_details option" where
  "crossing_scan window line h =
     (if length h \<ge> 2 then
        (let window_size = min window (length h) in
         scan_pairs line h window_size [1..<window_size])
      else None)"

definition is_red_light :: "controller \<Rightarrow> bool" where
  "is_red_light s = (color (latest_traffic_light s) = ''red'')"

definition push_violation :: "bool \<Rightarrow> bool list \<Rightarrow> bool list" where
  "push_violation a vh = (let vh1 = vh @ [a] in if length vh1 > 5 then tl vh1 else vh1)"

text \<open>Lines 956-986: what the evaluator does to the status of one track.\<close>

definition evaluate_status :: "bool \<Rightarrow> bool \<Rightarrow> vehicle_status \<Rightarrow> vehicle_status" where
  "evaluate_status actively_crossing red st =
     (let st1 = (if actively_crossing \<and> suspicious_jumps st \<le> 1
                 then st\<lparr>crossed_during_red := True\<rparr> else st);
          st2 = (if \<not> red then st1\<lparr>crossed_during_red := False\<rparr> else st1)
      in st2\<lparr>violation_history := push_violation actively_crossing (violation_history st2)\<rparr>)"

text \<open>Python's \<^verbatim>\<open>int(x)\<close> on a float truncates towards zero.\<close>

definition py_int :: "real \<Rightarrow> int" where
  "py_int x = (if x \<ge> 0 then \<lfloor>x\<rfloor> else \<lceil>x\<rceil>)"

text \<open>Lines 1003-1014: the record appended to \<^verbatim>\<open>violations\<close> (the timestamp and the two
  constant tags are left out).\<close>

definition movement_of :: "crossing_details option \<Rightarrow> real \<Rightarrow> movement" where
  "movement_of details cy = (case details of Some d \<Rightarrow> Crossing d | None \<Rightarrow> Fallback cy cy)"

definition violation_record ::
  "real \<Rightarrow> tracked_vehicle \<Rightarrow> crossing_details option \<Rightarrow> real list \<Rightarrow> violation" where
  "violation_record line tv details position_history =
     \<lparr>v_track_id = tv_id tv,
      v_bbox = (case tv_bbox tv of (x1, y1, x2, y2) \<Rightarrow>
                  (py_int x1, py_int y1, py_int x2, py_int y2)),
      v_line_position = line,
      v_movement = movement_of details (center_y tv),
      v_crossing_window = crossing_check_window,
      v_position_history = drop (length position_history - 10) position_history\<rparr>"

text \<open>Lines 916-1020: the body of the loop over \<^verbatim>\<open>tracked_vehicles\<close>. Reading a track that
  the maps do not hold raises \<^verbatim>\<open>KeyError\<close>.\<close>

definition evaluate_found ::
  "real \<Rightarrow> tracked_vehicle \<Rightarrow> controller \<Rightarrow> real list \<Rightarrow> vehicle_status \<Rightarrow>
     controller \<times> tracked_vehicle \<times> violation option" where
  "evaluate_found line tv s position_history st =
     (let details = crossing_scan crossing_check_window line position_history;
          red = is_red_light s;
          actively_crossing = (details \<noteq> None \<and> is_moving tv \<and> red);
          st' = evaluate_status actively_crossing red st
      in (s\<lparr>vehicle_statuses := AList.update (tv_id tv) st' (vehicle_statuses s)\<rparr>,
          tv\<lparr>is_violation := (crossed_during_red st' \<and> red)\<rparr>,
          (if actively_crossing \<and> suspicious_jumps st' \<le> 1
           then Some (violation_record line tv details position_history)
           else None)))"

definition evaluate_track ::
  "real \<Rightarrow> tracked_vehicle \<Rightarrow> controller \<Rightarrow>
     error + (controller \<times> tracked_vehicle \<times> violation option)" where
  "evaluate_track line tv s =
     (case map_of (vehicle_history s) (tv_id tv) of
        None \<Rightarrow> Inl KeyError
      | Some position_history \<Rightarrow>
          (case map_of (vehicle_statuses s) (tv_id tv) of
             None \<Rightarrow> Inl KeyError
           | Some st \<Rightarrow> Inr (evaluate_found line tv s position_history st)))"

fun evaluate_tracks ::
  "real \<Rightarrow> tracked_vehicle list \<Rightarrow> controller \<Rightarrow>
     error + (controller \<times> tracked_vehicle list \<times> violation list)" where
  "evaluate_tracks line [] s = Inr (s, [], [])"
| "evaluate_tracks line (tv # tvs) s =
     (case evaluate_track line tv s of
        Inl e \<Rightarrow> Inl e
      | Inr (s1, tv1, v) \<Rightarrow>
          (case evaluate_tracks line tvs s1 of
             Inl e \<Rightarrow> Inl e
           | Inr (s2, tvs2, vs) \<Rightarrow>
               Inr (s2, tv1 # tvs2, (case v of None \<Rightarrow> vs | Some r \<Rightarrow> r # vs))))"

section \<open>Traffic lights of the frame, line locator and light state resolver\<close>

record tl_entry =
  tl_bbox :: bbox
  tl_color :: string
  tl_confidence :: real

text \<open>Lines 660-666 and again 1232-1238: the traffic-light detections that carry a colour
  result are gathered; \<^verbatim>\<open>det['bbox']\<close> raises \<^verbatim>\<open>KeyError\<close> on a detection without a box.\<close>

fun collect_traffic_lights :: "detection list \<Rightarrow> error + tl_entry list" where
  "collect_traffic_lights [] = Inr []"
| "collect_traffic_lights (d # ds) =
     (if is_traffic_light (class_name d) then
        (case traffic_light_color d of
           None \<Rightarrow> collect_traffic_lights ds
         | Some li \<Rightarrow>
             (case det_bbox d of
                None \<Rightarrow> Inl KeyError
              | Some b \<Rightarrow>
                  (case collect_traffic_lights ds of
                     Inl e \<Rightarrow> Inl e
                   | Inr tls \<Rightarrow>
                       Inr (\<lparr>tl_bbox = b, tl_color = color li,
                             tl_confidence = confidence li\<rparr> # tls))))
      else collect_traffic_lights ds)"

definition has_traffic_lights :: "detection list \<Rightarrow> bool" where
  "has_traffic_lights dets = list_ex (\<lambda>d. is_traffic_light (class_name d)) dets"

text \<open>Lines 672-681: the centre of the first traffic light that has a box.\<close>

fun traffic_light_position :: "detection list \<Rightarrow> (real \<times> real) option" where
  "traffic_light_position [] = None"
| "traffic_light_position (d # ds) =
     (if is_traffic_light (class_name d) then
        (case det_bbox d of
           None \<Rightarrow> traffic_light_position ds
         | Some (x1, y1, x2, y2) \<Rightarrow>
             Some (of_int \<lfloor>(x1 + x2) / 2\<rfloor>, of_int \<lfloor>(y1 + y2) / 2\<rfloor>))
      else traffic_light_position ds)"

text \<open>Lines 683-725: the crosswalk locator runs only when a traffic light with a position was
  detected; otherwise there is no violation line in the frame.\<close>

definition violation_line_y :: "frame_input \<Rightarrow> real option" where
  "violation_line_y f =
     (if has_traffic_lights (detections f) \<and> traffic_light_position (detections f) \<noteq> None
      then crosswalk_line f else None)"

text \<open>Line 913: the evaluator runs only with a traffic light, a violation line and a track.\<close>

definition evaluate_phase ::
  "frame_input \<Rightarrow> tracked_vehicle list \<Rightarrow> controller \<Rightarrow>
     error + (controller \<times> tracked_vehicle list \<times> violation list)" where
  "evaluate_phase f tvs s =
     (case violation_line_y f of
        None \<Rightarrow> Inr (s, tvs, [])
      | Some line \<Rightarrow>
          if has_traffic_lights (detections f) \<and> tvs \<noteq> []
          then evaluate_tracks line tvs s
          else Inr (s, tvs, []))"

definition allowed_classes :: "string list" where
  "allowed_classes =
     [''traffic light'', ''car'', ''truck'', ''bus'', ''motorcycle'', ''van'', ''bicycle'']"

text \<open>Lines 1041-1225, the drawing loop, as far as it touches the state: a drawn detection
  that is a traffic light (by label or by \<^verbatim>\<open>class_id == 9\<close>) is classified, the result is
  stored on the detection and in \<^verbatim>\<open>latest_traffic_light\<close> (line 1204). A missing
  \<^verbatim>\<open>class_id\<close> reads as \<open>-1\<close>.\<close>

definition is_drawn_light :: "detection \<Rightarrow> bool" where
  "is_drawn_light d =
     ((case class_name d of None \<Rightarrow> False | Some n \<Rightarrow> n \<in> set allowed_classes) \<and>
      det_bbox d \<noteq> None \<and>
      (class_id d = 9 \<or> is_traffic_light (class_name d)))"

fun draw_pass ::
  "(detection \<Rightarrow> light_info option) \<Rightarrow> detection list \<Rightarrow> light_info \<Rightarrow>
     detection list \<times> light_info" where
  "draw_pass cl [] lt = ([], lt)"
| "draw_pass cl (d # ds) lt =
     (if is_drawn_light d then
        (case cl d of
           None \<Rightarrow> (case draw_pass cl ds lt of (ds', lt') \<Rightarrow> (d # ds', lt'))
         | Some li \<Rightarrow>
             (case draw_pass cl ds li of (ds', lt') \<Rightarrow>
                (d\<lparr>traffic_light_color := Some li\<rparr> # ds', lt')))
      else (case draw_pass cl ds lt of (ds', lt') \<Rightarrow> (d # ds', lt')))"

text \<open>\<^verbatim>\<open>max(red_lights, key=...)\<close>: the first entry of greatest confidence.\<close>

fun max_by_confidence :: "tl_entry \<Rightarrow> tl_entry list \<Rightarrow> tl_entry" where
  "max_by_confidence best [] = best"
| "max_by_confidence best (x # xs) =
     max_by_confidence (if tl_confidence x > tl_confidence best then x else best) xs"

text \<open>Lines 1240-1250: the consensus step.\<close>

definition resolve :: "tl_entry list \<Rightarrow> light_info \<Rightarrow> light_info" where
  "resolve traffic_lights lt =
     (case filter (\<lambda>tl. tl_color tl = ''red'') traffic_lights of
        [] \<Rightarrow> lt
      | r # rs \<Rightarrow> \<lparr>color = ''red'', confidence = tl_confidence (max_by_confidence r rs)\<rparr>)"

definition light_phase :: "frame_input \<Rightarrow> tl_entry list \<Rightarrow> controller \<Rightarrow> error + controller" where
  "light_phase f tls0 s =
     (case draw_pass (classify_light f) (detections f) (latest_traffic_light s) of
        (dets', lt) \<Rightarrow>
          (case collect_traffic_lights dets' of
             Inl e \<Rightarrow> Inl e
           | Inr tls1 \<Rightarrow> Inr (s\<lparr>latest_traffic_light := resolve (tls0 @ tls1) lt\<rparr>)))"

section \<open>One frame, and a run of frames\<close>

record frame_output =
  tracked_vehicles :: "tracked_vehicle list"
  violations :: "violation list"

text \<open>Lines 648-1260: one pass of the loop body of \<^verbatim>\<open>_run\<close> from the violation logic to
  the emission of the violation signals. An exception that no inner handler catches leaves
  the loop before anything is emitted.\<close>

definition process_frame :: "frame_input \<Rightarrow> controller \<Rightarrow> error + (controller \<times> frame_output)" where
  "process_frame f s =
     (case collect_traffic_lights (detections f) of
        Inl e \<Rightarrow> Inl e
      | Inr tls0 \<Rightarrow>
          (case track_phase f s of (s1, tvs) \<Rightarrow>
             (case evaluate_phase f tvs s1 of
                Inl e \<Rightarrow> Inl e
              | Inr (s2, tvs2, viols) \<Rightarrow>
                  (case light_phase f tls0 s2 of
                     Inl e \<Rightarrow> Inl e
                   | Inr s3 \<Rightarrow>
                       Inr (s3, \<lparr>tracked_vehicles = tvs2, violations = viols\<rparr>)))))"

fun run_frames :: "frame_input list \<Rightarrow> controller \<Rightarrow> error + (controller \<times> frame_output list)" where
  "run_frames [] s = Inr (s, [])"
| "run_frames (f # fs) s =
     (case process_frame f s of
        Inl e \<Rightarrow> Inl e
      | Inr (s1, out) \<Rightarrow>
          (case run_frames fs s1 of
             Inl e \<Rightarrow> Inl e
           | Inr (s2, outs) \<Rightarrow> Inr (s2, out # outs)))"

section \<open>Concrete inputs\<close>

text \<open>The test of line 936 on the pair \<open>i\<close> frames back.\<close>

definition crosses :: "real \<Rightarrow> real list \<Rightarrow> nat \<Rightarrow> bool" where
  "crosses line h i = (from_end h (i + 1) < line \<and> line \<le> from_end h i)"

text \<open>A history of nine positions whose only crossing of the line \<open>y = 50\<close> is the oldest
  pair.\<close>

definition history9 :: "real list" where
  "history9 = [0, 100, 100, 100, 100, 100, 100, 100, 100]"

text \<open>Frames for one vehicle, track 7, whose box is centred at height \<open>y\<close>, with the violation
  line at \<open>y = 150\<close>: in \<open>frame_at li y\<close> one traffic light is detected and classified as
  \<open>li\<close>; in \<open>dark_frame_at y\<close> nothing but the vehicle is detected.\<close>

definition tl_det :: detection where
  "tl_det =
     \<lparr>class_name = Some ''traffic light'', det_bbox = Some (100, 0, 120, 40), class_id = 9,
      traffic_light_color = None\<rparr>"

definition red_info :: light_info where
  "red_info = \<lparr>color = ''red'', confidence = 0.9\<rparr>"

definition green_info :: light_info where
  "green_info = \<lparr>color = ''green'', confidence = 0.8\<rparr>"

definition track7 :: "real \<Rightarrow> track" where
  "track7 y = \<lparr>track_id = 7, track_bbox = Some (0, y - 20, 40, y + 20)\<rparr>"

definition frame_at :: "light_info \<Rightarrow> real \<Rightarrow> frame_input" where
  "frame_at li y =
     \<lparr>detections = [tl_det],
      tracker_tracks = Some [track7 y],
      crosswalk_line = Some 150,
      classify_light = (\<lambda>d. Some li)\<rparr>"

definition dark_frame_at :: "real \<Rightarrow> frame_input" where
  "dark_frame_at y =
     \<lparr>detections = [],
      tracker_tracks = Some [track7 y],
      crosswalk_line = Some 150,
      classify_light = (\<lambda>d. None)\<rparr>"




text \<open>A scenario: under a red light the vehicle approaches the line (centres 100, 120, 140),
  then crosses it (160); \<open>s_approach\<close> and \<open>s_crossed\<close> are the states the controller
  reaches, \<open>s_green\<close> the state after one more frame (180) in which the light is classified
  green.\<close>

definition approach :: "frame_input list" where
  "approach = [frame_at red_info 100, frame_at red_info 120, frame_at red_info 140]"

definition s_approach :: controller where
  "s_approach =
     \<lparr>latest_traffic_light = red_info,
      vehicle_history = [(7, [100, 120, 140])],
      vehicle_statuses =
        [(7, \<lparr>recent_movement = [False, False, True],
               violation_history = [False, False, False],
               crossed_during_red = False, last_position = Some 140,
               suspicious_jumps = 0\<rparr>)]\<rparr>"

definition s_crossed :: controller where
  "s_crossed =
     \<lparr>latest_traffic_light = red_info,
      vehicle_history = [(7, [100, 120, 140, 160])],
      vehicle_statuses =
        [(7, \<lparr>recent_movement = [False, False, True, True],
               violation_history = [False, False, False, True],
               crossed_during_red = True, last_position = Some 160,
               suspicious_jumps = 0\<rparr>)]\<rparr>"

definition s_green :: controller where
  "s_green =
     \<lparr>latest_traffic_light = green_info,
      vehicle_history = [(7, [100, 120, 140, 160, 180])],
      vehicle_statuses =
        [(7, \<lparr>recent_movement = [False, True, True, True],
               violation_history = [False, False, False, True, True],
               crossed_during_red = True, last_position = Some 180,
               suspicious_jumps = 0\<rparr>)]\<rparr>"





text \<open>The results of the classifier calls of the drawing loop that returned, in order.\<close>

definition classified :: "(detection \<Rightarrow> light_info option) \<Rightarrow> detection list \<Rightarrow> light_info list" where
  "classified cl dets = List.map_filter cl (filter is_drawn_light dets)"

text \<open>The list \<^verbatim>\<open>red_lights\<close> of line 1243 when frame \<open>f\<close> is processed in state \<open>s\<close>: the
  traffic-light detections whose colour result, carried in or set by the drawing loop, is
  red.\<close>

definition red_lights :: "frame_input \<Rightarrow> controller \<Rightarrow> tl_entry list" where
  "red_lights f s =
     (case collect_traffic_lights (detections f) of
        Inl e \<Rightarrow> []
      | Inr tls0 \<Rightarrow>
          (case collect_traffic_lights
                  (fst (draw_pass (classify_light f) (detections f) (latest_traffic_light s))) of
             Inl e \<Rightarrow> []
           | Inr tls1 \<Rightarrow> filter (\<lambda>tl. tl_color tl = ''red'') (tls0 @ tls1)))"

section \<open>Properties\<close>

lemma lower_canonical:
  "lower ''traffic light'' = ''traffic light''"
  "lower ''car'' = ''car''"
  "lower ''truck'' = ''truck''"
  "lower ''bus'' = ''bus''"
  "lower ''motorcycle'' = ''motorcycle''"
  "lower ''person'' = ''person''"
  by (simp_all add: lower_def lower_char_def)

lemma normalize_canonical:
  "normalize_class_name (Some ''traffic light'') = ''traffic light''"
  "normalize_class_name (Some ''car'') = ''car''"
  "normalize_class_name (Some ''truck'') = ''truck''"
  "normalize_class_name (Some ''bus'') = ''bus''"
  "normalize_class_name (Some ''motorcycle'') = ''motorcycle''"
  "normalize_class_name (Some ''person'') = ''person''"
  "normalize_class_name (Some '''') = ''''"
  by (simp_all add: normalize_class_name_def lower_canonical)

lemma normalize_cases:
  "normalize_class_name L \<in>
     {''traffic light'', ''car'', ''truck'', ''bus'', ''motorcycle'', ''person'', ''''}
   \<or> L = Some (normalize_class_name L)"
  by (cases L) (simp_all add: normalize_class_name_def Let_def)

text \<open>
  Claim C9. The label normalizer is idempotent: normalising the result of a normalisation
  gives that result again, for every label (including \<^verbatim>\<open>None\<close> and the empty string).
\<close>

theorem normalize_class_name_idempotent:
  "normalize_class_name (Some (normalize_class_name L)) = normalize_class_name L"
  using normalize_cases [of L] by (auto simp: normalize_canonical)


subsection \<open>The crossing-window scan\<close>

lemma scan_pairs_None:
  "scan_pairs line h w is = None \<longleftrightarrow> (\<forall>i\<in>set is. \<not> crosses line h i)"
  by (induction "is") (auto simp: crosses_def Let_def)

lemma scan_pairs_upt_Some:
  "scan_pairs line h w [a..<b] = Some d \<Longrightarrow>
     a \<le> frames_ago d \<and> frames_ago d < b \<and> crosses line h (frames_ago d) \<and>
     prev_y d = from_end h (frames_ago d + 1) \<and> curr_y d = from_end h (frames_ago d) \<and>
     window_checked d = w \<and>
     (\<forall>j. a \<le> j \<and> j < frames_ago d \<longrightarrow> \<not> crosses line h j)"
proof (induction "b - a" arbitrary: a)
  case 0
  then show ?case by simp
next
  case (Suc n)
  then have ab: "a < b" and up: "[a..<b] = a # [Suc a..<b]"
    by (auto simp: upt_conv_Cons)
  show ?case
  proof (cases "crosses line h a")
    case True
    with Suc.prems up ab show ?thesis
      by (auto simp: crosses_def Let_def)
  next
    case False
    with Suc.prems up have rest: "scan_pairs line h w [Suc a..<b] = Some d"
      by (auto simp: crosses_def Let_def)
    from Suc.hyps(2) have "n = b - Suc a" by simp
    note ih = Suc.hyps(1) [OF this rest]
    have "\<not> crosses line h j" if "a \<le> j" "j < frames_ago d" for j
    proof (cases "j = a")
      case True
      with False show ?thesis by simp
    next
      case False
      with that have "Suc a \<le> j" by simp
      with ih that show ?thesis by blast
    qed
    with ih show ?thesis by auto
  qed
qed

lemma crossing_scan_None:
  "crossing_scan w line h = None \<longleftrightarrow>
      \<not> (\<exists>i. 1 \<le> i \<and> i < min w (length h) \<and> crosses line h i)"
  by (auto simp: crossing_scan_def Let_def scan_pairs_None)

lemma crossing_scan_Some:
  assumes "crossing_scan w line h = Some d"
  shows "1 \<le> frames_ago d \<and> frames_ago d < min w (length h) \<and>
         crosses line h (frames_ago d) \<and>
         prev_y d = from_end h (frames_ago d + 1) \<and> curr_y d = from_end h (frames_ago d) \<and>
         (\<forall>j. 1 \<le> j \<and> j < frames_ago d \<longrightarrow> \<not> crosses line h j)"
proof -
  from assms have "scan_pairs line h (min w (length h)) [1..<min w (length h)] = Some d"
    by (simp add: crossing_scan_def Let_def split: if_splits)
  from scan_pairs_upt_Some [OF this] show ?thesis by simp
qed

lemma crossing_scan_example:
  "crossing_scan 8 25 [10, 20, 30] =
     Some \<lparr>frames_ago = 1, prev_y = 20, curr_y = 30, window_checked = 3\<rparr>"
  by (simp add: crossing_scan_def from_end_def upt_conv_Cons)

text \<open>
  Claim C3. The crossing-window scan reports a crossing exactly when one of the scanned pairs
  (\<open>i\<close> frames back, \<open>1 \<le> i < min window (length history)\<close>) has its earlier position above the
  line and its later position on or below it; the pair it reports is the most recent such
  pair, with its frames-ago, earlier and later position. For the history \<open>[10, 20, 30]\<close> and the
  line \<open>y = 25\<close> the crossing is found at the pair 20, 30.
\<close>

theorem crossing_scan_first_match:
  "(crossing_scan w line h = None \<longleftrightarrow>
      \<not> (\<exists>i. 1 \<le> i \<and> i < min w (length h) \<and> from_end h (i + 1) < line \<and> line \<le> from_end h i))
   \<and> (\<forall>d. crossing_scan w line h = Some d \<longrightarrow>
          1 \<le> frames_ago d \<and> frames_ago d < min w (length h) \<and>
          prev_y d = from_end h (frames_ago d + 1) \<and> curr_y d = from_end h (frames_ago d) \<and>
          prev_y d < line \<and> line \<le> curr_y d \<and>
          (\<forall>j. 1 \<le> j \<and> j < frames_ago d \<longrightarrow>
                \<not> (from_end h (j + 1) < line \<and> line \<le> from_end h j)))
   \<and> crossing_scan 8 25 [10, 20, 30] =
        Some \<lparr>frames_ago = 1, prev_y = 20, curr_y = 30, window_checked = 3\<rparr>"
  using crossing_scan_None [of w line h] crossing_scan_Some [of w line h] crossing_scan_example
  unfolding crosses_def by auto

theorem crossing_scan_first_match_witness:
  "crossing_scan 8 25 [10, 20, 30] = Some \<lparr>frames_ago = 1, prev_y = 20, curr_y = 30, window_checked = 3\<rparr>
   \<and> (1::nat) < min 8 (length [10, 20, 30 :: real])
   \<and> from_end [10, 20, 30 :: real] 2 < 25 \<and> (25::real) \<le> from_end [10, 20, 30] 1
   \<and> crossing_scan 8 25 [10, 20, 30] \<noteq> None"
  using crossing_scan_first_match [of 8 25 "[10, 20, 30]"]
  by (simp add: from_end_def)

text \<open>
  Claim C4, as amended. For a history of at least \<open>window + 1\<close> positions the scan examines the
  \<open>window - 1\<close> most recent consecutive pairs (seven by default, those among the last eight
  positions): it reports a crossing exactly when one of these pairs crosses the line.
\<close>

theorem crossing_scan_window_pairs:
  "w + 1 \<le> length h \<Longrightarrow>
     (crossing_scan w line h \<noteq> None \<longleftrightarrow>
        (\<exists>i. 1 \<le> i \<and> i \<le> w - 1 \<and> from_end h (i + 1) < line \<and> line \<le> from_end h i))"
  using crossing_scan_None [of w line h]
  by (cases w) (auto simp: crosses_def min_def less_Suc_eq_le)

text \<open>
  Claim C4 as stated fails: with nine positions the eighth most recent pair crosses the line
  and the scan with the default window of 8 reports nothing.
\<close>

theorem crossing_scan_eighth_pair_counterexample:
  "crossing_check_window + 1 \<le> length history9 \<and>
   from_end history9 (8 + 1) < 50 \<and> (50::real) \<le> from_end history9 8 \<and>
   crossing_scan crossing_check_window 50 history9 = None"
  by (simp add: history9_def crossing_check_window_def crossing_scan_def from_end_def upt_conv_Cons)

lemma history10_scan:
  "crossing_scan crossing_check_window 150 (history9 @ [200]) =
     Some \<lparr>frames_ago = 1, prev_y = 100, curr_y = 200, window_checked = 8\<rparr>"
  by (simp add: history9_def crossing_check_window_def crossing_scan_def from_end_def upt_conv_Cons)

theorem crossing_scan_window_pairs_witness:
  "crossing_check_window + 1 \<le> length (history9 @ [200]) \<and>
   (\<exists>i. 1 \<le> i \<and> i \<le> crossing_check_window - 1 \<and>
        from_end (history9 @ [200]) (i + 1) < 150 \<and> 150 \<le> from_end (history9 @ [200]) i)"
proof -
  have len: "crossing_check_window + 1 \<le> length (history9 @ [200])"
    by (simp add: history9_def crossing_check_window_def)
  from crossing_scan_window_pairs [OF len, of 150] history10_scan len
  show ?thesis by simp
qed



subsection \<open>The jump counter\<close>


lemma update_status_jumps [simp]:
  "suspicious_jumps (update_status cy h st) = suspicious_jumps (jump_check cy st)"
  by (simp add: update_status_def Let_def)


lemma evaluate_status_jumps [simp]:
  "suspicious_jumps (evaluate_status a r st) = suspicious_jumps st"
  by (simp add: evaluate_status_def Let_def)























subsection \<open>Jump suppression\<close>

text \<open>
  Claim C5 says that in the frame of a third jump the track's \<open>crossed_during_red\<close> is cleared,
  its counter reset, and no violation record emitted for a crossing reported in that frame.
  The code clears the flag and resets the counter in the jump check, and for that very reason
  the evaluator of the same frame reads the counter 0, passes its test \<open>suspicious_jumps \<le> 1\<close>,
  sets the flag again and emits the record. Track 7 moves 0, 60, 120, 180 under a red light
  with the line at 150: after three frames the counter is 2; the fourth frame brings the third
  jump, the tracking block leaves counter 0 and flag false, and the frame ends with a violation
  record for track 7 (crossing 120 to 180, one frame back) and the flag true.
\<close>

theorem third_jump_frame_emits_violation:
  "(case run_frames (map (frame_at red_info) [0, 60, 120]) init_controller of
      Inl e \<Rightarrow> False
    | Inr (s3, outs3) \<Rightarrow>
        map violations outs3 = [[], [], []] \<and>
        map (\<lambda>p. (fst p, last_position (snd p), suspicious_jumps (snd p))) (vehicle_statuses s3)
          = [(7, Some 120, 2)] \<and>
        max_position_jump < \<bar>180 - 120\<bar> \<and>
        (case track_phase (frame_at red_info 180) s3 of
           (s3', tvs) \<Rightarrow>
             map (\<lambda>p. (suspicious_jumps (snd p), crossed_during_red (snd p)))
               (vehicle_statuses s3') = [(0, False)]) \<and>
        (case process_frame (frame_at red_info 180) s3 of
           Inl e \<Rightarrow> False
         | Inr (s4, out4) \<Rightarrow>
             map v_track_id (violations out4) = [7] \<and>
             map v_movement (violations out4) =
               [Crossing \<lparr>frames_ago = 1, prev_y = 120, curr_y = 180, window_checked = 4\<rparr>] \<and>
             map (\<lambda>p. crossed_during_red (snd p)) (vehicle_statuses s4) = [True]))"
  by code_simp



subsection \<open>What each phase of a frame changes\<close>

lemma update_track_facts:
  assumes "update_track tb s = (s1, tv)"
  shows "latest_traffic_light s1 = latest_traffic_light s"
    and "tv_id tv = fst tb"
    and "\<not> is_violation tv"
    and "fst ` set (vehicle_history s1) = insert (fst tb) (fst ` set (vehicle_history s))"
    and "fst ` set (vehicle_statuses s1) = insert (fst tb) (fst ` set (vehicle_statuses s))"
proof -
  obtain tid x1 y1 x2 y2 where tb: "tb = (tid, x1, y1, x2, y2)"
    by (cases tb) auto
  from assms have "s1 = fst (update_track tb s)" "tv = snd (update_track tb s)"
    by simp_all
  then show "latest_traffic_light s1 = latest_traffic_light s"
    and "tv_id tv = fst tb"
    and "\<not> is_violation tv"
    and "fst ` set (vehicle_history s1) = insert (fst tb) (fst ` set (vehicle_history s))"
    and "fst ` set (vehicle_statuses s1) = insert (fst tb) (fst ` set (vehicle_statuses s))"
    unfolding tb by (simp_all add: update_track_def Let_def dom_update)
qed

lemma update_tracks_facts:
  "update_tracks ts s = (s1, tvs) \<Longrightarrow>
     latest_traffic_light s1 = latest_traffic_light s \<and>
     map tv_id tvs = map fst ts \<and>
     (\<forall>tv\<in>set tvs. \<not> is_violation tv) \<and>
     fst ` set (vehicle_history s1) = fst ` set ts \<union> fst ` set (vehicle_history s) \<and>
     fst ` set (vehicle_statuses s1) = fst ` set ts \<union> fst ` set (vehicle_statuses s)"
proof (induction ts arbitrary: s tvs)
  case Nil
  then show ?case by simp
next
  case (Cons t ts)
  obtain s0 tv where ut: "update_track t s = (s0, tv)" by (cases "update_track t s")
  with Cons.prems obtain tvs0 where
    rest: "update_tracks ts s0 = (s1, tvs0)" and tvs: "tvs = tv # tvs0"
    by (auto split: prod.splits)
  from Cons.IH [OF rest] update_track_facts [OF ut] tvs show ?case
    by auto
qed

lemma fold_delete_vehicle:
  "latest_traffic_light (fold delete_vehicle ks s) = latest_traffic_light s \<and>
   map_of (vehicle_history (fold delete_vehicle ks s)) k =
     (if k \<in> set ks then None else map_of (vehicle_history s) k) \<and>
   map_of (vehicle_statuses (fold delete_vehicle ks s)) k =
     (if k \<in> set ks then None else map_of (vehicle_statuses s) k)"
  by (induction ks arbitrary: s) (auto simp: delete_vehicle_def delete_conv')

lemma keys_map_of: "k \<in> fst ` set al \<longleftrightarrow> map_of al k \<noteq> None"
  by (simp add: map_of_eq_None_iff)

lemma cleanup_facts:
  "latest_traffic_light (cleanup_old_vehicle_data ids s) = latest_traffic_light s"
  "fst ` set (vehicle_history (cleanup_old_vehicle_data ids s)) =
     fst ` set (vehicle_history s) \<inter> set ids"
  "fst ` set (vehicle_statuses (cleanup_old_vehicle_data ids s)) =
     fst ` set (vehicle_statuses s) - (fst ` set (vehicle_history s) - set ids)"
  "map_of (vehicle_history (cleanup_old_vehicle_data ids s)) k =
     (if k \<in> fst ` set (vehicle_history s) - set ids then None else map_of (vehicle_history s) k)"
  "map_of (vehicle_statuses (cleanup_old_vehicle_data ids s)) k =
     (if k \<in> fst ` set (vehicle_history s) - set ids then None else map_of (vehicle_statuses s) k)"
proof -
  let ?old = "filter (\<lambda>k. k \<notin> set ids) (map fst (vehicle_history s))"
  have c: "cleanup_old_vehicle_data ids s = fold delete_vehicle ?old s"
    by (simp add: cleanup_old_vehicle_data_def)
  have o: "set ?old = fst ` set (vehicle_history s) - set ids" by auto
  show "latest_traffic_light (cleanup_old_vehicle_data ids s) = latest_traffic_light s"
    by (simp add: c fold_delete_vehicle)
  show h: "map_of (vehicle_history (cleanup_old_vehicle_data ids s)) k =
     (if k \<in> fst ` set (vehicle_history s) - set ids then None else map_of (vehicle_history s) k)"
    for k unfolding c using fold_delete_vehicle [of ?old s k] o by simp
  show st: "map_of (vehicle_statuses (cleanup_old_vehicle_data ids s)) k =
     (if k \<in> fst ` set (vehicle_history s) - set ids then None else map_of (vehicle_statuses s) k)"
    for k unfolding c using fold_delete_vehicle [of ?old s k] o by simp
  show "fst ` set (vehicle_history (cleanup_old_vehicle_data ids s)) =
     fst ` set (vehicle_history s) \<inter> set ids"
  proof (rule set_eqI)
    fix k
    show "k \<in> fst ` set (vehicle_history (cleanup_old_vehicle_data ids s)) \<longleftrightarrow>
          k \<in> fst ` set (vehicle_history s) \<inter> set ids"
      unfolding keys_map_of [of k "vehicle_history (cleanup_old_vehicle_data ids s)"] h
      by (simp add: keys_map_of)
  qed
  show "fst ` set (vehicle_statuses (cleanup_old_vehicle_data ids s)) =
     fst ` set (vehicle_statuses s) - (fst ` set (vehicle_history s) - set ids)"
  proof (rule set_eqI)
    fix k
    show "k \<in> fst ` set (vehicle_statuses (cleanup_old_vehicle_data ids s)) \<longleftrightarrow>
          k \<in> fst ` set (vehicle_statuses s) - (fst ` set (vehicle_history s) - set ids)"
      unfolding keys_map_of [of k "vehicle_statuses (cleanup_old_vehicle_data ids s)"] st
      by (simp add: keys_map_of)
  qed
qed

lemma track_phase_None:
  "tracker_tracks f = None \<Longrightarrow> track_phase f s = (s, [])"
  by (simp add: track_phase_def)

lemma track_phase_Some:
  assumes "tracker_tracks f = Some ts" and "track_phase f s = (s1, tvs)"
  shows "latest_traffic_light s1 = latest_traffic_light s"
    and "map tv_id tvs = map fst (valid_tracks ts)"
    and "\<forall>tv\<in>set tvs. \<not> is_violation tv"
    and "fst ` set (vehicle_history s1) = fst ` set (valid_tracks ts)"
    and "fst ` set (vehicle_statuses s1) =
           fst ` set (valid_tracks ts) \<union>
           (fst ` set (vehicle_statuses s) - fst ` set (vehicle_history s))"
proof -
  obtain s0 where ut: "update_tracks (valid_tracks ts) s = (s0, tvs)"
    and s1: "s1 = cleanup_old_vehicle_data (map tv_id tvs) s0"
    using assms by (auto simp: track_phase_def split: prod.splits)
  note u = update_tracks_facts [OF ut]
  from u have ids: "set (map tv_id tvs) = fst ` set (valid_tracks ts)" by simp
  show "latest_traffic_light s1 = latest_traffic_light s"
    using u by (simp add: s1 cleanup_facts)
  show "map tv_id tvs = map fst (valid_tracks ts)" using u by simp
  show "\<forall>tv\<in>set tvs. \<not> is_violation tv" using u by simp
  show "fst ` set (vehicle_history s1) = fst ` set (valid_tracks ts)"
    unfolding s1 cleanup_facts ids using u by auto
  show "fst ` set (vehicle_statuses s1) =
           fst ` set (valid_tracks ts) \<union>
           (fst ` set (vehicle_statuses s) - fst ` set (vehicle_history s))"
    unfolding s1 cleanup_facts ids using u by auto
qed


lemma valid_tracks_set:
  "set (valid_tracks ts) = {(track_id t, b) | t b. t \<in> set ts \<and> track_bbox t = Some b}"
  by (induction ts) (auto split: option.splits)


lemma evaluate_track_Inr:
  assumes "evaluate_track line tv s = Inr r"
  obtains h st where "map_of (vehicle_history s) (tv_id tv) = Some h"
    and "map_of (vehicle_statuses s) (tv_id tv) = Some st"
    and "r = evaluate_found line tv s h st"
  using assms by (auto simp: evaluate_track_def split: option.splits)

lemma evaluate_track_total:
  "tv_id tv \<in> fst ` set (vehicle_history s) \<Longrightarrow> tv_id tv \<in> fst ` set (vehicle_statuses s) \<Longrightarrow>
     \<exists>r. evaluate_track line tv s = Inr r"
proof -
  assume "tv_id tv \<in> fst ` set (vehicle_history s)"
    and "tv_id tv \<in> fst ` set (vehicle_statuses s)"
  then obtain h st where "map_of (vehicle_history s) (tv_id tv) = Some h"
    and "map_of (vehicle_statuses s) (tv_id tv) = Some st"
    by (auto simp: keys_map_of)
  then have "evaluate_track line tv s = Inr (evaluate_found line tv s h st)"
    by (simp add: evaluate_track_def)
  then show ?thesis by blast
qed

lemma evaluate_status_crossed:
  "crossed_during_red (evaluate_status a r st) =
     (r \<and> (crossed_during_red st \<or> a \<and> suspicious_jumps st \<le> 1))"
  by (auto simp: evaluate_status_def Let_def)

lemma evaluate_track_facts:
  assumes "evaluate_track line tv s = Inr (s', tv', v)"
  shows "vehicle_history s' = vehicle_history s"
    and "latest_traffic_light s' = latest_traffic_light s"
    and "tv_id tv' = tv_id tv"
    and "fst ` set (vehicle_statuses s') = fst ` set (vehicle_statuses s)"
    and "k \<noteq> tv_id tv \<Longrightarrow> map_of (vehicle_statuses s') k = map_of (vehicle_statuses s) k"
    and "\<exists>st'. map_of (vehicle_statuses s') (tv_id tv) = Some st' \<and>
               is_violation tv' = (crossed_during_red st' \<and> is_red_light s) \<and>
               (\<not> is_red_light s \<longrightarrow> \<not> crossed_during_red st')"
proof -
  from assms obtain h st where
    hs: "map_of (vehicle_history s) (tv_id tv) = Some h"
    and st: "map_of (vehicle_statuses s) (tv_id tv) = Some st"
    and r: "(s', tv', v) = evaluate_found line tv s h st"
    by (rule evaluate_track_Inr)
  from st have key: "tv_id tv \<in> fst ` set (vehicle_statuses s)"
    by (simp add: keys_map_of)
  from r show "vehicle_history s' = vehicle_history s"
    and "latest_traffic_light s' = latest_traffic_light s"
    and "tv_id tv' = tv_id tv"
    by (simp_all add: evaluate_found_def Let_def)
  from r key show "fst ` set (vehicle_statuses s') = fst ` set (vehicle_statuses s)"
    by (auto simp: evaluate_found_def Let_def dom_update)
  from r show "map_of (vehicle_statuses s') k = map_of (vehicle_statuses s) k"
    if "k \<noteq> tv_id tv" using that
    by (simp add: evaluate_found_def Let_def update_conv')
  from r show "\<exists>st'. map_of (vehicle_statuses s') (tv_id tv) = Some st' \<and>
               is_violation tv' = (crossed_during_red st' \<and> is_red_light s) \<and>
               (\<not> is_red_light s \<longrightarrow> \<not> crossed_during_red st')"
    by (simp add: evaluate_found_def Let_def update_conv' evaluate_status_crossed)
qed


lemma evaluate_tracks_frame:
  "evaluate_tracks line tvs s = Inr (s', tvs', vs) \<Longrightarrow>
     vehicle_history s' = vehicle_history s \<and>
     latest_traffic_light s' = latest_traffic_light s \<and>
     map tv_id tvs' = map tv_id tvs \<and>
     fst ` set (vehicle_statuses s') = fst ` set (vehicle_statuses s) \<and>
     (\<forall>k. k \<notin> tv_id ` set tvs \<longrightarrow>
          map_of (vehicle_statuses s') k = map_of (vehicle_statuses s) k)"
proof (induction tvs arbitrary: s tvs' vs)
  case Nil
  then show ?case by simp
next
  case (Cons tv tvs)
  from Cons.prems obtain s1 tv1 v tvs1 vs1 where
    e1: "evaluate_track line tv s = Inr (s1, tv1, v)" and
    e2: "evaluate_tracks line tvs s1 = Inr (s', tvs1, vs1)" and
    tvs': "tvs' = tv1 # tvs1"
    by (auto split: sum.splits prod.splits)
  from Cons.IH [OF e2] evaluate_track_facts [OF e1] tvs' show ?case
    by auto
qed

lemma evaluate_tracks_total:
  "tv_id ` set tvs \<subseteq> fst ` set (vehicle_history s) \<Longrightarrow>
   tv_id ` set tvs \<subseteq> fst ` set (vehicle_statuses s) \<Longrightarrow>
     \<exists>r. evaluate_tracks line tvs s = Inr r"
proof (induction tvs arbitrary: s)
  case Nil
  then show ?case by simp
next
  case (Cons tv tvs)
  from Cons.prems obtain s1 tv1 v where e1: "evaluate_track line tv s = Inr (s1, tv1, v)"
    using evaluate_track_total [of tv s line] by auto
  from evaluate_track_facts [OF e1] Cons.prems
  have "tv_id ` set tvs \<subseteq> fst ` set (vehicle_history s1)"
    and "tv_id ` set tvs \<subseteq> fst ` set (vehicle_statuses s1)" by auto
  from Cons.IH [OF this] obtain r where "evaluate_tracks line tvs s1 = Inr r" by blast
  with e1 show ?case by (cases r) (auto)
qed






lemma collect_no_lights:
  "\<not> has_traffic_lights dets \<Longrightarrow> collect_traffic_lights dets = Inr []"
  by (induction dets) (simp_all add: has_traffic_lights_def)

lemma draw_pass_fst:
  "fst (draw_pass cl (d # ds) lt) =
     (if is_drawn_light d then
        (case cl d of
           None \<Rightarrow> d # fst (draw_pass cl ds lt)
         | Some li \<Rightarrow> d\<lparr>traffic_light_color := Some li\<rparr> # fst (draw_pass cl ds li))
      else d # fst (draw_pass cl ds lt))"
  by (simp split: prod.split option.split)

lemma draw_pass_snd:
  "snd (draw_pass cl (d # ds) lt) =
     (if is_drawn_light d then
        (case cl d of
           None \<Rightarrow> snd (draw_pass cl ds lt)
         | Some li \<Rightarrow> snd (draw_pass cl ds li))
      else snd (draw_pass cl ds lt))"
  by (simp split: prod.split option.split)

lemma draw_pass_names:
  "map class_name (fst (draw_pass cl dets lt)) = map class_name dets"
proof (induction dets arbitrary: lt)
  case Nil
  then show ?case by simp
next
  case (Cons d dets)
  then show ?case
    unfolding draw_pass_fst by (simp split: option.split)
qed

lemma has_traffic_lights_names:
  assumes "map class_name dets' = map class_name dets"
  shows "has_traffic_lights dets' = has_traffic_lights dets"
proof -
  have e: "has_traffic_lights ds = list_ex is_traffic_light (map class_name ds)" for ds
    by (induction ds) (simp_all add: has_traffic_lights_def)
  show ?thesis by (simp only: e assms)
qed


lemma resolve_Nil [simp]: "resolve [] lt = lt"
  by (simp add: resolve_def)


lemma light_phase_no_lights:
  assumes "\<not> has_traffic_lights (detections f)"
  shows "light_phase f [] s =
           Inr (s\<lparr>latest_traffic_light :=
                    snd (draw_pass (classify_light f) (detections f) (latest_traffic_light s))\<rparr>)"
proof -
  let ?D = "draw_pass (classify_light f) (detections f) (latest_traffic_light s)"
  have "has_traffic_lights (fst ?D) = has_traffic_lights (detections f)"
    by (rule has_traffic_lights_names) (rule draw_pass_names)
  with assms have "\<not> has_traffic_lights (fst ?D)" by simp
  then have "collect_traffic_lights (fst ?D) = Inr []" by (rule collect_no_lights)
  then show ?thesis by (simp add: light_phase_def case_prod_beta)
qed

lemma process_frame_collect:
  assumes "process_frame f s = Inr (s', out)"
  shows "\<exists>tls0. collect_traffic_lights (detections f) = Inr tls0"
  using assms
  by (cases "collect_traffic_lights (detections f)") (simp_all add: process_frame_def)

lemma process_frame_evaluate:
  assumes "process_frame f s = Inr (s', out)"
    and "collect_traffic_lights (detections f) = Inr tls0"
    and "track_phase f s = (s1, tvs)"
  shows "\<exists>s2 tvs2 vs. evaluate_phase f tvs s1 = Inr (s2, tvs2, vs)"
  using assms
  by (cases "evaluate_phase f tvs s1") (auto simp: process_frame_def)

lemma process_frame_light:
  assumes "process_frame f s = Inr (s', out)"
    and "collect_traffic_lights (detections f) = Inr tls0"
    and "track_phase f s = (s1, tvs)"
    and "evaluate_phase f tvs s1 = Inr (s2, tvs2, vs)"
  shows "light_phase f tls0 s2 = Inr s' \<and> out = \<lparr>tracked_vehicles = tvs2, violations = vs\<rparr>"
  using assms
  by (cases "light_phase f tls0 s2") (simp_all add: process_frame_def)

lemma process_frame_Inr:
  assumes "process_frame f s = Inr (s', out)"
  obtains tls0 s1 tvs s2 tvs2 vs where
    "collect_traffic_lights (detections f) = Inr tls0"
    "track_phase f s = (s1, tvs)"
    "evaluate_phase f tvs s1 = Inr (s2, tvs2, vs)"
    "light_phase f tls0 s2 = Inr s'"
    "out = \<lparr>tracked_vehicles = tvs2, violations = vs\<rparr>"
proof -
  obtain s1 tvs where tp: "track_phase f s = (s1, tvs)"
    by (cases "track_phase f s")
  from process_frame_collect [OF assms]
  obtain tls0 where c: "collect_traffic_lights (detections f) = Inr tls0" by blast
  from process_frame_evaluate [OF assms c tp]
  obtain s2 tvs2 vs where ep: "evaluate_phase f tvs s1 = Inr (s2, tvs2, vs)" by blast
  from process_frame_light [OF assms c tp ep] that [OF c tp ep]
  show thesis by blast
qed

lemma evaluate_phase_closed:
  "\<not> has_traffic_lights (detections f) \<Longrightarrow> evaluate_phase f tvs s = Inr (s, tvs, [])"
  by (simp add: evaluate_phase_def violation_line_y_def)

text \<open>
  Claim C7. In a frame with no traffic-light detection the frame is processed without error,
  no violation line exists, the evaluator does not run (histories and statuses are as the
  tracking block left them, and every tracked vehicle keeps \<open>is_violation = False\<close>), and no
  violation record is emitted, whatever the tracks and their geometry.
\<close>

theorem no_light_no_violation:
  "\<not> has_traffic_lights (detections f) \<Longrightarrow>
     (\<exists>s'. process_frame f s =
             Inr (s', \<lparr>tracked_vehicles = snd (track_phase f s), violations = []\<rparr>) \<and>
           vehicle_statuses s' = vehicle_statuses (fst (track_phase f s)) \<and>
           vehicle_history s' = vehicle_history (fst (track_phase f s))) \<and>
     violation_line_y f = None \<and>
     (\<forall>tv\<in>set (snd (track_phase f s)). \<not> is_violation tv)"
proof -
  assume n: "\<not> has_traffic_lights (detections f)"
  obtain s1 tvs where tp: "track_phase f s = (s1, tvs)" by (cases "track_phase f s")
  have nv: "\<forall>tv\<in>set tvs. \<not> is_violation tv"
  proof (cases "tracker_tracks f")
    case None
    with tp show ?thesis by (simp add: track_phase_None)
  next
    case (Some ts)
    from track_phase_Some(3) [OF Some tp] show ?thesis .
  qed
  from n tp have "process_frame f s =
      Inr (s1\<lparr>latest_traffic_light :=
                 snd (draw_pass (classify_light f) (detections f) (latest_traffic_light s1))\<rparr>,
           \<lparr>tracked_vehicles = tvs, violations = []\<rparr>)"
    by (simp add: process_frame_def collect_no_lights evaluate_phase_closed
                  light_phase_no_lights)
  with n tp nv show ?thesis by (simp add: violation_line_y_def)
qed


lemma evaluate_phase_facts:
  assumes "evaluate_phase f tvs s = Inr (s', tvs', vs)"
  shows "vehicle_history s' = vehicle_history s"
    and "latest_traffic_light s' = latest_traffic_light s"
    and "map tv_id tvs' = map tv_id tvs"
    and "fst ` set (vehicle_statuses s') = fst ` set (vehicle_statuses s)"
proof -
  have "vehicle_history s' = vehicle_history s \<and>
        latest_traffic_light s' = latest_traffic_light s \<and>
        map tv_id tvs' = map tv_id tvs \<and>
        fst ` set (vehicle_statuses s') = fst ` set (vehicle_statuses s)"
  proof (cases "\<exists>line. violation_line_y f = Some line \<and> has_traffic_lights (detections f) \<and> tvs \<noteq> []")
    case True
    then obtain line where "evaluate_tracks line tvs s = Inr (s', tvs', vs)"
      using assms by (auto simp: evaluate_phase_def)
    from evaluate_tracks_frame [OF this] show ?thesis by simp
  next
    case False
    with assms show ?thesis
      by (auto simp: evaluate_phase_def split: option.splits if_splits)
  qed
  then show "vehicle_history s' = vehicle_history s"
    and "latest_traffic_light s' = latest_traffic_light s"
    and "map tv_id tvs' = map tv_id tvs"
    and "fst ` set (vehicle_statuses s') = fst ` set (vehicle_statuses s)"
    by simp_all
qed








subsection \<open>The scenario\<close>

lemma run_approach:
  "run_frames approach init_controller =
     Inr (s_approach, snd (projr (run_frames approach init_controller)))"
  by code_simp

lemma frame_crossing:
  "process_frame (frame_at red_info 160) s_approach =
     Inr (s_crossed, snd (projr (process_frame (frame_at red_info 160) s_approach)))"
  by code_simp

lemma frame_green:
  "process_frame (frame_at green_info 180) s_crossed =
     Inr (s_green, snd (projr (process_frame (frame_at green_info 180) s_crossed)))"
  by code_simp

lemma run_frames_append:
  "run_frames (fs @ gs) s =
     (case run_frames fs s of
        Inl e \<Rightarrow> Inl e
      | Inr (s1, outs) \<Rightarrow>
          (case run_frames gs s1 of
             Inl e \<Rightarrow> Inl e
           | Inr (s2, outs2) \<Rightarrow> Inr (s2, outs @ outs2)))"
  by (induction fs arbitrary: s) (simp_all split: sum.split prod.split)

lemma run_frames_snoc:
  "run_frames fs s = Inr (s1, outs) \<Longrightarrow> process_frame f s1 = Inr (s2, out) \<Longrightarrow>
     run_frames (fs @ [f]) s = Inr (s2, outs @ [out])"
  by (simp add: run_frames_append)

theorem no_light_no_violation_witness:
  "\<not> has_traffic_lights (detections (dark_frame_at 160)) \<and>
   violations (snd (projr (process_frame (dark_frame_at 160) s_approach))) = [] \<and>
   map (\<lambda>p. crossed_during_red (snd p))
     (vehicle_statuses (fst (projr (process_frame (dark_frame_at 160) s_approach)))) = [False]"
proof -
  have h: "\<not> has_traffic_lights (detections (dark_frame_at 160))"
    by (simp add: dark_frame_at_def has_traffic_lights_def)
  have t: "map (\<lambda>p. crossed_during_red (snd p))
             (vehicle_statuses (fst (track_phase (dark_frame_at 160) s_approach))) = [False]"
    by code_simp
  from no_light_no_violation [OF h, of s_approach] obtain s' where
    "process_frame (dark_frame_at 160) s_approach =
       Inr (s', \<lparr>tracked_vehicles = snd (track_phase (dark_frame_at 160) s_approach),
                violations = []\<rparr>)"
    and "vehicle_statuses s' = vehicle_statuses (fst (track_phase (dark_frame_at 160) s_approach))"
    by blast
  with h t show ?thesis by simp
qed




subsection \<open>The sticky flag and the per-frame violation flag\<close>

lemma track_phase_light:
  "track_phase f s = (s1, tvs) \<Longrightarrow>
     latest_traffic_light s1 = latest_traffic_light s \<and> (\<forall>tv\<in>set tvs. \<not> is_violation tv)"
proof (cases "tracker_tracks f")
  case None
  assume "track_phase f s = (s1, tvs)"
  with None show ?thesis by (simp add: track_phase_None)
next
  case (Some ts)
  assume "track_phase f s = (s1, tvs)"
  from track_phase_Some(1,3) [OF Some this] show ?thesis by simp
qed




lemma run_crossed:
  "run_frames (approach @ [frame_at red_info 160]) init_controller =
     Inr (s_crossed, snd (projr (run_frames approach init_controller)) @
                     [snd (projr (process_frame (frame_at red_info 160) s_approach))])"
  using run_frames_snoc [OF run_approach frame_crossing] .

lemma run_green:
  "run_frames ((approach @ [frame_at red_info 160]) @ [frame_at green_info 180]) init_controller =
     Inr (s_green, (snd (projr (run_frames approach init_controller)) @
                     [snd (projr (process_frame (frame_at red_info 160) s_approach))]) @
                     [snd (projr (process_frame (frame_at green_info 180) s_crossed))])"
  using run_frames_snoc [OF run_crossed frame_green] .







subsection \<open>The light state at the end of a frame\<close>

lemma draw_pass_latest:
  "snd (draw_pass cl dets lt) = last (lt # classified cl dets)"
proof (induction dets arbitrary: lt)
  case Nil
  then show ?case by (simp add: classified_def map_filter_simps)
next
  case (Cons d dets)
  then show ?case
    unfolding draw_pass_snd
    by (simp add: classified_def map_filter_simps split: option.split)
qed

lemma resolve_no_red:
  "filter (\<lambda>tl. tl_color tl = ''red'') tls = [] \<Longrightarrow> resolve tls lt = lt"
  by (simp add: resolve_def)

lemma light_phase_Inr:
  assumes "light_phase f tls0 s = Inr s'"
  obtains tls1 where
    "collect_traffic_lights
       (fst (draw_pass (classify_light f) (detections f) (latest_traffic_light s))) = Inr tls1"
    "s' = s\<lparr>latest_traffic_light :=
              resolve (tls0 @ tls1)
                (snd (draw_pass (classify_light f) (detections f) (latest_traffic_light s)))\<rparr>"
proof -
  let ?D = "draw_pass (classify_light f) (detections f) (latest_traffic_light s)"
  from assms have "\<exists>tls1. collect_traffic_lights (fst ?D) = Inr tls1 \<and>
      s' = s\<lparr>latest_traffic_light := resolve (tls0 @ tls1) (snd ?D)\<rparr>"
    by (cases "collect_traffic_lights (fst ?D)")
       (auto simp: light_phase_def case_prod_beta)
  with that show thesis by blast
qed

text \<open>
  Claim C6, as amended. In a frame in which no traffic light is classified red, the consensus
  step changes nothing, and \<open>latest_traffic_light\<close> ends the frame as the drawing loop left
  it: the classifier's result for the last traffic light classified in the frame, whatever
  its colour, and the previous value only when none was classified.
\<close>

theorem latest_light_without_red:
  assumes p: "process_frame f s = Inr (s', out)"
    and n: "red_lights f s = []"
  shows "latest_traffic_light s' =
           last (latest_traffic_light s # classified (classify_light f) (detections f)) \<and>
         (classified (classify_light f) (detections f) = [] \<longrightarrow>
            latest_traffic_light s' = latest_traffic_light s)"
proof -
  from p obtain tls0 s1 tvs s2 tvs2 vs where
    c: "collect_traffic_lights (detections f) = Inr tls0" and
    tp: "track_phase f s = (s1, tvs)" and
    ep: "evaluate_phase f tvs s1 = Inr (s2, tvs2, vs)" and
    lp: "light_phase f tls0 s2 = Inr s'"
    by (rule process_frame_Inr)
  from track_phase_light [OF tp] evaluate_phase_facts(2) [OF ep]
  have l2: "latest_traffic_light s2 = latest_traffic_light s" by simp
  let ?D = "draw_pass (classify_light f) (detections f) (latest_traffic_light s)"
  from lp l2 obtain tls1 where
    c1: "collect_traffic_lights (fst ?D) = Inr tls1" and
    s': "s' = s2\<lparr>latest_traffic_light := resolve (tls0 @ tls1) (snd ?D)\<rparr>"
    by (auto elim: light_phase_Inr)
  from n c c1 have "filter (\<lambda>tl. tl_color tl = ''red'') (tls0 @ tls1) = []"
    by (simp add: red_lights_def)
  then have "resolve (tls0 @ tls1) (snd ?D) = snd ?D" by (rule resolve_no_red)
  with s' have "latest_traffic_light s' = snd ?D" by simp
  then have "latest_traffic_light s' =
      last (latest_traffic_light s # classified (classify_light f) (detections f))"
    by (simp only: draw_pass_latest)
  then show ?thesis by simp
qed

theorem latest_light_without_red_witness:
  "process_frame (frame_at green_info 160) s_approach =
     Inr (projr (process_frame (frame_at green_info 160) s_approach)) \<and>
   red_lights (frame_at green_info 160) s_approach = [] \<and>
   classified (classify_light (frame_at green_info 160)) (detections (frame_at green_info 160))
     = [green_info] \<and>
   latest_traffic_light (fst (projr (process_frame (frame_at green_info 160) s_approach)))
     = green_info"
proof -
  let ?P = "process_frame (frame_at green_info 160) s_approach"
  have p: "?P = Inr (fst (projr ?P), snd (projr ?P))" by code_simp
  have n: "red_lights (frame_at green_info 160) s_approach = []" by code_simp
  have cl: "classified (classify_light (frame_at green_info 160))
              (detections (frame_at green_info 160)) = [green_info]" by code_simp
  from latest_light_without_red [OF p n] p n cl show ?thesis by simp
qed

text \<open>
  Claim C6 as stated fails: the light state is red, the only traffic light of the frame is
  classified green (so no light is classified red), and the frame ends with the light state
  green.
\<close>

theorem light_demoted_to_green_counterexample:
  "latest_traffic_light s_approach = red_info \<and>
   red_lights (frame_at green_info 160) s_approach = [] \<and>
   (case process_frame (frame_at green_info 160) s_approach of
      Inl e \<Rightarrow> False
    | Inr (s', out) \<Rightarrow> latest_traffic_light s' = green_info) \<and>
   color red_info = ''red'' \<and> color green_info = ''green''"
  by code_simp


end
